theory Spec2Isabelle
  imports
    Complex_Main
    "HOL-Library.Multiset"
    "HOL-Library.Sublist"
    "HOL-Library.Char_ord"
    "HOL-Library.List_Lexorder"
    "HOL-Library.Product_Lexorder"
    "HOL-Library.Code_Target_Nat"
begin

section \<open>The invoicing data-access module \<open>app/lib/data.ts\<close>\<close>

text \<open>
  The module is a set of async functions, each of which sends one fixed SQL statement
  (three, for \<open>fetchCardData\<close>) to a PostgreSQL store and shapes the rows. The embedding
  has three layers:
  \<^item> the tables, as lists of records in storage order, and the value-to-text conversions
    that the statements use (\<open>::text\<close>, \<open>COUNT\<close> delivered as decimal text);
  \<^item> the SQL that the statements are written in (\<open>JOIN\<close>, \<open>LEFT JOIN\<close>, \<open>ILIKE\<close>,
    \<open>ORDER BY\<close>, \<open>LIMIT\<close>/\<open>OFFSET\<close>, \<open>COUNT\<close>, \<open>SUM\<close>, \<open>GROUP BY\<close>), as list functions;
  \<^item> the TypeScript functions themselves, with \<open>try\<close>/\<open>catch\<close> as a sum type and
    \<open>console.error\<close> as a list of console entries.

  Numbers: every number that the module handles is an integer (amounts in minor units,
  row counts, offsets), modelled as \<open>int\<close>; JavaScript holds them as doubles, exact below
  \<open>2^53\<close>, and the properties of the page offset are stated below that bound. The one
  quotient that is not an integer (\<open>amount / 100\<close>) is modelled as a rational. \<open>NaN\<close> is
  \<open>None\<close> in the type \<open>int option\<close> of numbers read from text.

  What PostgreSQL leaves to the installation is a field of the store: the case folding of
  the database locale, and the order in which rows with equal sort keys come back.
\<close>

subsection \<open>Rows of the three tables\<close>

datatype status = Paid | Pending | Canceled

text \<open>A \<open>DATE\<close> value: year, month, day, compared lexicographically.\<close>

type_synonym date = "nat \<times> nat \<times> nat"

record revenue_row =
  month :: string
  revenue :: int

record invoice =
  inv_id :: string
  inv_customer_id :: string
  inv_amount :: int
  inv_date :: date
  inv_status :: status

record customer =
  cust_id :: string
  cust_name :: string
  cust_email :: string
  cust_image_url :: "string option"

subsection \<open>Values as text\<close>

definition digit_char :: "nat \<Rightarrow> char" where
  "digit_char d = char_of (48 + d)"

function nat_text :: "nat \<Rightarrow> string" where
  "nat_text n = (if n < 10 then [digit_char n] else nat_text (n div 10) @ [digit_char (n mod 10)])"
  by pat_completeness auto
termination
  by (relation "measure (\<lambda>n. n)") auto

declare nat_text.simps [simp del]

text \<open>\<open>amount::text\<close> on an integer column.\<close>

definition int_text :: "int \<Rightarrow> string" where
  "int_text a = (if a < 0 then CHR ''-'' # nat_text (nat (- a)) else nat_text (nat a))"

definition zero_pad :: "nat \<Rightarrow> string \<Rightarrow> string" where
  "zero_pad w s = replicate (w - length s) (CHR ''0'') @ s"

text \<open>\<open>date::text\<close> in the ISO style \<open>YYYY-MM-DD\<close>.\<close>

definition date_text :: "date \<Rightarrow> string" where
  "date_text d = (case d of (y, m, dd) \<Rightarrow>
     zero_pad 4 (nat_text y) @ ''-'' @ zero_pad 2 (nat_text m) @ ''-'' @ zero_pad 2 (nat_text dd))"

definition status_text :: "status \<Rightarrow> string" where
  "status_text s = (case s of Paid \<Rightarrow> ''paid'' | Pending \<Rightarrow> ''pending'' | Canceled \<Rightarrow> ''canceled'')"

text \<open>
  JavaScript's \<open>Number\<close> on a string, for the strings that \<open>COUNT\<close> delivers: a run of
  decimal digits is its value and the empty string is 0. Every other string is \<open>NaN\<close>
  here (signs, fractions, exponents and surrounding blanks never occur in a count).
\<close>

definition is_digit :: "char \<Rightarrow> bool" where
  "is_digit c = (48 \<le> (of_char c :: nat) \<and> (of_char c :: nat) \<le> 57)"

definition digit_val :: "char \<Rightarrow> nat" where
  "digit_val c = of_char c - 48"

definition Number_text :: "string \<Rightarrow> int option" where
  "Number_text s =
     (if list_all is_digit s then Some (int (foldl (\<lambda>acc c. acc * 10 + digit_val c) 0 s))
      else None)"

subsection \<open>\<open>LIKE\<close> and \<open>ILIKE\<close>\<close>

text \<open>
  PostgreSQL's pattern match. In the pattern, \<open>%\<close> stands for any run of characters,
  \<open>_\<close> for any one character, and a backslash makes the character after it stand for
  itself; every other character stands for itself, and the pattern has to cover the whole
  text. A \<open>char\<close> is one character of the text. Characters that stand for themselves
  are compared after case folding with \<open>lc\<close>: the identity for \<open>LIKE\<close>, the lower-casing
  of the database locale for \<open>ILIKE\<close>. A pattern that ends in a lone backslash is rejected
  by PostgreSQL; it matches nothing here, and no pattern of this module has that form,
  since each ends in the \<open>%\<close> that the function appends.
\<close>

fun like_match :: "(char \<Rightarrow> char) \<Rightarrow> string \<Rightarrow> string \<Rightarrow> bool" where
  "like_match lc t [] = (t = [])"
| "like_match lc t (p # ps) =
     (if p = CHR ''%'' then
        (like_match lc t ps \<or> (case t of [] \<Rightarrow> False | _ # ts \<Rightarrow> like_match lc ts (p # ps)))
      else if p = CHR ''_'' then
        (case t of [] \<Rightarrow> False | _ # ts \<Rightarrow> like_match lc ts ps)
      else if p = CHR 0x5C then
        (case ps of [] \<Rightarrow> False
         | q # qs \<Rightarrow> (case t of [] \<Rightarrow> False | x # ts \<Rightarrow> lc x = lc q \<and> like_match lc ts qs))
      else
        (case t of [] \<Rightarrow> False | x # ts \<Rightarrow> lc x = lc p \<and> like_match lc ts ps))"

definition ilike :: "(char \<Rightarrow> char) \<Rightarrow> string \<Rightarrow> string \<Rightarrow> bool" where
  "ilike locale_lc t p = like_match locale_lc t p"

text \<open>The case folding of the \<open>C\<close> locale: the letters \<open>A\<close> to \<open>Z\<close> and nothing else.\<close>

definition lower_char :: "char \<Rightarrow> char" where
  "lower_char c =
     (if 65 \<le> (of_char c :: nat) \<and> (of_char c :: nat) \<le> 90 then char_of (of_char c + 32 :: nat)
      else c)"

text \<open>
  A folding that also takes the Latin-1 capitals \<open>0xC0\<close> to \<open>0xDE\<close> (without the
  multiplication sign \<open>0xD7\<close>) to their small letters, \<open>0x20\<close> further on.
\<close>

definition latin1_lower :: "char \<Rightarrow> char" where
  "latin1_lower c =
     (if 192 \<le> (of_char c :: nat) \<and> (of_char c :: nat) \<le> 222 \<and> (of_char c :: nat) \<noteq> 215
      then char_of (of_char c + 32 :: nat)
      else lower_char c)"

subsection \<open>Values as the client delivers them\<close>

text \<open>
  A column value in a row object. The client turns an \<open>integer\<close> column into a number
  and a \<open>bigint\<close> into decimal text; \<open>COUNT\<close> and the \<open>SUM\<close> of an integer column are
  \<open>bigint\<close>.
\<close>

datatype js_value = JsNumber int | JsString string | JsNull

definition bigint_value :: "int option \<Rightarrow> js_value" where
  "bigint_value x = (case x of None \<Rightarrow> JsNull | Some v \<Rightarrow> JsString (int_text v))"

text \<open>\<open>Number.isFinite\<close> does not convert its argument: text and \<open>null\<close> are not finite.\<close>

definition Number_isFinite :: "js_value \<Rightarrow> bool" where
  "Number_isFinite x = (case x of JsNumber _ \<Rightarrow> True | JsString _ \<Rightarrow> False | JsNull \<Rightarrow> False)"

subsection \<open>The store and the \<open>sql\<close> client\<close>

text \<open>
  The error with which the store rejects a statement; the string is the storage-layer
  detail (connection lost, syntax error, constraint violated).
\<close>

datatype db_error = DbError string

text \<open>The ten statements of the module, in source order.\<close>

datatype stmt =
    SelectRevenue | SelectLatestInvoices
  | CountInvoices | CountCustomers | SumInvoiceStatus
  | SelectFilteredInvoices | CountFilteredInvoices
  | SelectInvoiceById | SelectCustomers | SelectFilteredCustomers

text \<open>
  The store: the three tables; for each statement whether the store fails on it and
  with which error (\<open>None\<close>: the statement runs); the lower-casing of the database
  locale; and the rank by which the store happens to return rows that \<open>ORDER BY\<close> does
  not tell apart (lower rank first).
\<close>

record store =
  revenue_tbl :: "revenue_row list"
  invoices_tbl :: "invoice list"
  customers_tbl :: "customer list"
  fault :: "stmt \<Rightarrow> db_error option"
  locale_lower :: "char \<Rightarrow> char"
  tie_rank :: "invoice \<times> customer \<Rightarrow> nat"

text \<open>
  \<open>await sql`...`\<close>: the promise rejects with the store's error, or resolves to what the
  statement evaluates to (itself an error where PostgreSQL rejects the statement's
  arguments).
\<close>

definition sql :: "store \<Rightarrow> stmt \<Rightarrow> (db_error + 'r) \<Rightarrow> db_error + 'r" where
  "sql st s q = (case fault st s of Some e \<Rightarrow> Inl e | None \<Rightarrow> q)"

text \<open>
  The outcome of a call: the entries written with \<open>console.error\<close> (the tag and the
  caught error), and either the message of the \<open>Error\<close> thrown to the caller (\<open>Inl\<close>) or
  the value returned (\<open>Inr\<close>). \<open>new Error(msg)\<close> carries the message and nothing else.
\<close>

type_synonym 'a outcome = "(string \<times> db_error) list \<times> (string + 'a)"

text \<open>\<open>try { body } catch (error) { console.error(tag, error); throw new Error(msg) }\<close>\<close>

definition try_catch :: "string \<Rightarrow> string \<Rightarrow> (db_error + 'a) \<Rightarrow> 'a outcome" where
  "try_catch tag msg body =
     (case body of Inr v \<Rightarrow> ([], Inr v) | Inl e \<Rightarrow> ([(tag, e)], Inl msg))"

subsection \<open>SQL operators\<close>

text \<open>\<open>FROM invoices JOIN customers ON invoices.customer_id = customers.id\<close>\<close>

definition join_customers :: "invoice list \<Rightarrow> customer list \<Rightarrow> (invoice \<times> customer) list" where
  "join_customers is cs =
     concat (map (\<lambda>i. map (Pair i) (filter (\<lambda>c. inv_customer_id i = cust_id c) cs)) is)"

text \<open>
  \<open>ORDER BY invoices.date DESC\<close>. PostgreSQL leaves the order of rows with equal dates
  open: they come by the rank that the store gives them. Both sorts are stable, so the
  result is ordered by date descending and, within a date, by rank ascending.
\<close>

definition order_by_date_desc ::
  "(invoice \<times> customer \<Rightarrow> nat) \<Rightarrow> (invoice \<times> customer) list \<Rightarrow> (invoice \<times> customer) list" where
  "order_by_date_desc rank rows =
     rev (sort_key (\<lambda>r. inv_date (fst r)) (rev (sort_key rank rows)))"

text \<open>
  \<open>LIMIT n OFFSET k\<close>. The offset is a \<open>bigint\<close>: PostgreSQL rejects a negative one and
  one beyond \<open>2^63 - 1\<close>.
\<close>

definition limit_offset :: "nat \<Rightarrow> int \<Rightarrow> 'r list \<Rightarrow> db_error + 'r list" where
  "limit_offset n k rows =
     (if k < 0 then Inl (DbError ''OFFSET must not be negative'')
      else if 9223372036854775807 < k then Inl (DbError ''value is out of range for type bigint'')
      else Inr (take n (drop (nat k) rows)))"

text \<open>\<open>COUNT\<close> is a \<open>bigint\<close>, which the client hands over as decimal text.\<close>

definition count_text :: "'r list \<Rightarrow> string" where
  "count_text rows = nat_text (length rows)"

text \<open>\<open>SUM\<close> over no rows is \<open>NULL\<close>.\<close>

definition sql_sum :: "int list \<Rightarrow> int option" where
  "sql_sum xs = (if xs = [] then None else Some (sum_list xs))"

text \<open>
  The \<open>WHERE\<close> clause shared by \<open>fetchFilteredInvoices\<close> and \<open>fetchInvoicesPages\<close>, on a
  joined row.
\<close>

definition invoice_where :: "(char \<Rightarrow> char) \<Rightarrow> string \<Rightarrow> invoice \<times> customer \<Rightarrow> bool" where
  "invoice_where lc like r =
     (ilike lc (cust_name (snd r)) like \<or>
      ilike lc (cust_email (snd r)) like \<or>
      ilike lc (int_text (inv_amount (fst r))) like \<or>
      ilike lc (date_text (inv_date (fst r))) like \<or>
      ilike lc (status_text (inv_status (fst r))) like)"

text \<open>The \<open>WHERE\<close> clause of \<open>fetchFilteredCustomers\<close>.\<close>

definition customer_where :: "(char \<Rightarrow> char) \<Rightarrow> string \<Rightarrow> customer \<Rightarrow> bool" where
  "customer_where lc like c = (ilike lc (cust_name c) like \<or> ilike lc (cust_email c) like)"

text \<open>
  \<open>FROM customers LEFT JOIN invoices ON customers.id = invoices.customer_id\<close>: a customer
  without invoices keeps one row, whose invoice columns are \<open>NULL\<close>.
\<close>

definition left_join_invoices :: "customer list \<Rightarrow> invoice list \<Rightarrow> (customer \<times> invoice option) list" where
  "left_join_invoices cs is =
     concat (map (\<lambda>c. case filter (\<lambda>i. cust_id c = inv_customer_id i) is of
                         [] \<Rightarrow> [(c, None)]
                       | js \<Rightarrow> map (\<lambda>i. (c, Some i)) js) cs)"

text \<open>
  \<open>CASE WHEN invoices.status = s THEN invoices.amount ELSE 0 END\<close>; on a row without
  invoice the comparison is \<open>NULL\<close> and the \<open>ELSE\<close> branch is taken.
\<close>

definition amount_if_status :: "status \<Rightarrow> invoice \<Rightarrow> int" where
  "amount_if_status s i = (if inv_status i = s then inv_amount i else 0)"

definition amount_if_status_null :: "status \<Rightarrow> invoice option \<Rightarrow> int" where
  "amount_if_status_null s oi = (case oi of None \<Rightarrow> 0 | Some i \<Rightarrow> amount_if_status s i)"

text \<open>
  \<open>GROUP BY customers.id, customers.name, customers.email, customers.image_url\<close> on the
  rows of the left join: one group for each distinct customer row, holding the invoice
  columns of all its rows.
\<close>

definition group_by_customer ::
  "(customer \<times> invoice option) list \<Rightarrow> (customer \<times> invoice option list) list" where
  "group_by_customer rows =
     map (\<lambda>k. (k, map snd (filter (\<lambda>r. fst r = k) rows))) (remdups (map fst rows))"

subsection \<open>Row types of the results\<close>

text \<open>
  The amount columns are a type parameter: the rows that the client delivers carry
  numbers or, for the sums of \<open>fetchFilteredCustomers\<close>, delivered values; the rows that
  the functions return carry formatted text or a quotient. \<open>total_invoices\<close> is a
  \<open>COUNT\<close>, delivered as decimal text and returned as it is.
\<close>

record 'a latest_invoice =
  li_amount :: 'a
  li_name :: string
  li_image_url :: "string option"
  li_email :: string
  li_id :: string

record invoices_table =
  it_id :: string
  it_amount :: int
  it_date :: date
  it_status :: status
  it_name :: string
  it_email :: string
  it_image_url :: "string option"

record 'a invoice_form =
  if_id :: string
  if_customer_id :: string
  if_amount :: 'a
  if_status :: status

record customer_field =
  cf_id :: string
  cf_name :: string

record 'a customers_table =
  ct_id :: string
  ct_name :: string
  ct_email :: string
  ct_image_url :: "string option"
  ct_total_invoices :: string
  ct_total_pending :: 'a
  ct_total_paid :: 'a

record card_data =
  numberOfCustomers :: "int option"
  numberOfInvoices :: "int option"
  totalPaidInvoices :: string
  totalPendingInvoices :: string

subsection \<open>The fetch functions\<close>

text \<open>
  \<open>formatCurrency\<close> is imported from \<open>./utils\<close>, outside this module; every function that
  calls it takes it as its first argument.
\<close>

definition ITEMS_PER_PAGE :: int where
  "ITEMS_PER_PAGE = 6"

definition fetchRevenue :: "store \<Rightarrow> revenue_row list outcome" where
  "fetchRevenue st =
     try_catch ''Database Error (fetchRevenue):'' ''Failed to fetch revenue data.''
       (sql st SelectRevenue (Inr (revenue_tbl st)))"

definition latest_row :: "invoice \<times> customer \<Rightarrow> int latest_invoice" where
  "latest_row r =
     \<lparr>li_amount = inv_amount (fst r), li_name = cust_name (snd r),
      li_image_url = cust_image_url (snd r), li_email = cust_email (snd r),
      li_id = inv_id (fst r)\<rparr>"

definition fetchLatestInvoices :: "(int \<Rightarrow> string) \<Rightarrow> store \<Rightarrow> string latest_invoice list outcome" where
  "fetchLatestInvoices formatCurrency st =
     try_catch ''Database Error (fetchLatestInvoices):'' ''Failed to fetch the latest invoices.''
       (case sql st SelectLatestInvoices
               (Inr (map latest_row
                  (take 5 (order_by_date_desc (tie_rank st)
                             (join_customers (invoices_tbl st) (customers_tbl st))))))
        of Inl e \<Rightarrow> Inl e
         | Inr rows \<Rightarrow>
             Inr (map (\<lambda>invoice.
                    \<lparr>li_amount = formatCurrency (li_amount invoice), li_name = li_name invoice,
                     li_image_url = li_image_url invoice, li_email = li_email invoice,
                     li_id = li_id invoice\<rparr>) rows))"

text \<open>
  \<open>fetchCardData\<close> starts its three statements together and awaits \<open>Promise.all\<close>, which
  rejects as soon as one of them does. Which rejection comes first is decided by the
  store; the model takes the statements in the order of the array. The choice shows only
  in the console entry. The two sums arrive as decimal text or \<open>NULL\<close>; \<open>formatCurrency\<close>
  computes with its argument, which reads such text as the number it spells, and the
  parameter is given that number.
\<close>

definition fetchCardData :: "(int \<Rightarrow> string) \<Rightarrow> store \<Rightarrow> card_data outcome" where
  "fetchCardData formatCurrency st =
     try_catch ''Database Error (fetchCardData):'' ''Failed to fetch card data.''
       (case sql st CountInvoices (Inr [count_text (invoices_tbl st)]) of Inl e \<Rightarrow> Inl e
        | Inr invoiceCountRes \<Rightarrow>
       (case sql st CountCustomers (Inr [count_text (customers_tbl st)]) of Inl e \<Rightarrow> Inl e
        | Inr customerCountRes \<Rightarrow>
       (case sql st SumInvoiceStatus
               (Inr [(sql_sum (map (amount_if_status Paid) (invoices_tbl st)),
                      sql_sum (map (amount_if_status Pending) (invoices_tbl st)))])
        of Inl e \<Rightarrow> Inl e
        | Inr invoiceStatusRes \<Rightarrow>
            Inr \<lparr>numberOfCustomers =
                   Number_text (case customerCountRes of [] \<Rightarrow> ''0'' | r # _ \<Rightarrow> r),
                 numberOfInvoices =
                   Number_text (case invoiceCountRes of [] \<Rightarrow> ''0'' | r # _ \<Rightarrow> r),
                 totalPaidInvoices =
                   formatCurrency (case invoiceStatusRes of [] \<Rightarrow> 0
                      | r # _ \<Rightarrow> (case fst r of None \<Rightarrow> 0 | Some v \<Rightarrow> v)),
                 totalPendingInvoices =
                   formatCurrency (case invoiceStatusRes of [] \<Rightarrow> 0
                      | r # _ \<Rightarrow> (case snd r of None \<Rightarrow> 0 | Some v \<Rightarrow> v))\<rparr>)))"

definition table_row :: "invoice \<times> customer \<Rightarrow> invoices_table" where
  "table_row r =
     \<lparr>it_id = inv_id (fst r), it_amount = inv_amount (fst r), it_date = inv_date (fst r),
      it_status = inv_status (fst r), it_name = cust_name (snd r), it_email = cust_email (snd r),
      it_image_url = cust_image_url (snd r)\<rparr>"

text \<open>
  The page number is an integer here; the source's \<open>number\<close> admits fractions too. The
  offset is the exact product; the source's product is exact below \<open>2^53\<close>.
\<close>

definition fetchFilteredInvoices :: "store \<Rightarrow> string \<Rightarrow> int \<Rightarrow> invoices_table list outcome" where
  "fetchFilteredInvoices st query currentPage =
     (let offset = (currentPage - 1) * ITEMS_PER_PAGE in
      try_catch ''Database Error (fetchFilteredInvoices):'' ''Failed to fetch invoices.''
        (let like = ''%'' @ query @ ''%'' in
         sql st SelectFilteredInvoices
           (limit_offset (nat ITEMS_PER_PAGE) offset
              (map table_row
                 (order_by_date_desc (tie_rank st)
                    (filter (invoice_where (locale_lower st) like)
                       (join_customers (invoices_tbl st) (customers_tbl st))))))))"

definition fetchInvoicesPages :: "store \<Rightarrow> string \<Rightarrow> int option outcome" where
  "fetchInvoicesPages st query =
     try_catch ''Database Error (fetchInvoicesPages):'' ''Failed to fetch total number of invoices.''
       (let like = ''%'' @ query @ ''%'' in
        case sql st CountFilteredInvoices
               (Inr [count_text (filter (invoice_where (locale_lower st) like)
                        (join_customers (invoices_tbl st) (customers_tbl st)))])
        of Inl e \<Rightarrow> Inl e
         | Inr rows \<Rightarrow>
             (let total = (case rows of [] \<Rightarrow> Some 0 | r # _ \<Rightarrow> Number_text r) in
              Inr (map_option (\<lambda>t. \<lceil>(of_int t :: rat) / of_int ITEMS_PER_PAGE\<rceil>) total)))"

definition form_row :: "invoice \<Rightarrow> int invoice_form" where
  "form_row i =
     \<lparr>if_id = inv_id i, if_customer_id = inv_customer_id i, if_amount = inv_amount i,
      if_status = inv_status i\<rparr>"

text \<open>The result \<open>None\<close> is the \<open>undefined\<close> that the function returns for no row.\<close>

definition fetchInvoiceById :: "store \<Rightarrow> string \<Rightarrow> rat invoice_form option outcome" where
  "fetchInvoiceById st ident =
     try_catch ''Database Error (fetchInvoiceById):'' ''Failed to fetch invoice.''
       (case sql st SelectInvoiceById
               (Inr (take 1 (map form_row (filter (\<lambda>i. inv_id i = ident) (invoices_tbl st)))))
        of Inl e \<Rightarrow> Inl e
         | Inr rows \<Rightarrow>
             (case rows of [] \<Rightarrow> Inr None
              | row # _ \<Rightarrow>
                  Inr (Some \<lparr>if_id = if_id row, if_customer_id = if_customer_id row,
                             if_amount = of_int (if_amount row) / 100,
                             if_status = if_status row\<rparr>)))"

text \<open>
  \<open>ORDER BY name ASC\<close> follows the collation of the database; the model compares the
  names character by character and keeps equal names in storage order. No property below
  depends on the order of the customers.
\<close>

definition fetchCustomers :: "store \<Rightarrow> customer_field list outcome" where
  "fetchCustomers st =
     try_catch ''Database Error (fetchCustomers):'' ''Failed to fetch all customers.''
       (sql st SelectCustomers
          (Inr (sort_key cf_name
                  (map (\<lambda>c. \<lparr>cf_id = cust_id c, cf_name = cust_name c\<rparr>) (customers_tbl st)))))"

text \<open>
  The select list of \<open>fetchFilteredCustomers\<close> on one group, as the client delivers it:
  \<open>COUNT(invoices.id)\<close> counts the rows with an invoice and arrives as decimal text; each
  \<open>SUM\<close> arrives as decimal text, or as \<open>null\<close> when it is \<open>NULL\<close>. (The row type that
  the source declares calls all three numbers.)
\<close>

definition summary_row :: "customer \<times> invoice option list \<Rightarrow> js_value customers_table" where
  "summary_row g =
     \<lparr>ct_id = cust_id (fst g), ct_name = cust_name (fst g), ct_email = cust_email (fst g),
      ct_image_url = cust_image_url (fst g),
      ct_total_invoices = count_text (filter (\<lambda>oi. oi \<noteq> None) (snd g)),
      ct_total_pending = bigint_value (sql_sum (map (amount_if_status_null Pending) (snd g))),
      ct_total_paid = bigint_value (sql_sum (map (amount_if_status_null Paid) (snd g)))\<rparr>"

text \<open>
  \<open>Number.isFinite(x) ? formatCurrency(x) : formatCurrency(0)\<close>: only a number reaches
  the first branch.
\<close>

definition format_finite :: "(int \<Rightarrow> string) \<Rightarrow> js_value \<Rightarrow> string" where
  "format_finite formatCurrency x =
     (if Number_isFinite x
      then (case x of JsNumber v \<Rightarrow> formatCurrency v | _ \<Rightarrow> formatCurrency 0)
      else formatCurrency 0)"

definition fetchFilteredCustomers ::
  "(int \<Rightarrow> string) \<Rightarrow> store \<Rightarrow> string \<Rightarrow> string customers_table list outcome" where
  "fetchFilteredCustomers formatCurrency st query =
     try_catch ''Database Error (fetchFilteredCustomers):'' ''Failed to fetch customer table.''
       (let like = ''%'' @ query @ ''%'' in
        case sql st SelectFilteredCustomers
               (Inr (sort_key ct_name
                  (map summary_row
                     (group_by_customer
                        (filter (\<lambda>r. customer_where (locale_lower st) like (fst r))
                           (left_join_invoices (customers_tbl st) (invoices_tbl st)))))))
        of Inl e \<Rightarrow> Inl e
         | Inr rows \<Rightarrow>
             Inr (map (\<lambda>c.
                    \<lparr>ct_id = ct_id c, ct_name = ct_name c, ct_email = ct_email c,
                     ct_image_url = ct_image_url c, ct_total_invoices = ct_total_invoices c,
                     ct_total_pending = format_finite formatCurrency (ct_total_pending c),
                     ct_total_paid = format_finite formatCurrency (ct_total_paid c)\<rparr>) rows))"

subsection \<open>Notions used to state the properties\<close>

text \<open>The characters that \<open>LIKE\<close> reads as operators, and the queries free of them.\<close>

definition like_special :: "char \<Rightarrow> bool" where
  "like_special c = (c = CHR ''%'' \<or> c = CHR ''_'' \<or> c = CHR 0x5C)"

definition plain_query :: "string \<Rightarrow> bool" where
  "plain_query q = list_all (\<lambda>c. \<not> like_special c) q"

text \<open>
  Containment as the specification words it: the field contains the query as a
  case-insensitive substring, anywhere. Two characters are the same up to case when the
  lower-casing \<open>lc\<close> of the locale takes them to the same character.
\<close>

definition contains_ci :: "(char \<Rightarrow> char) \<Rightarrow> string \<Rightarrow> string \<Rightarrow> bool" where
  "contains_ci lc field query = sublist (map lc query) (map lc field)"

definition any_field_contains :: "(char \<Rightarrow> char) \<Rightarrow> string \<Rightarrow> invoice \<times> customer \<Rightarrow> bool" where
  "any_field_contains lc query r =
     (contains_ci lc (cust_name (snd r)) query \<or>
      contains_ci lc (cust_email (snd r)) query \<or>
      contains_ci lc (int_text (inv_amount (fst r))) query \<or>
      contains_ci lc (date_text (inv_date (fst r))) query \<or>
      contains_ci lc (status_text (inv_status (fst r))) query)"

text \<open>
  \<open>matchCount\<close> as the specification words it: the number of invoice rows, joined with
  their customer, of which some field contains the query.
\<close>

definition matchCount :: "store \<Rightarrow> string \<Rightarrow> nat" where
  "matchCount st query =
     length (filter (any_field_contains (locale_lower st) query)
               (join_customers (invoices_tbl st) (customers_tbl st)))"

text \<open>
  The invariant of the data model: customer ids are unique and every invoice refers to
  an existing customer.
\<close>

definition referential_integrity :: "store \<Rightarrow> bool" where
  "referential_integrity st =
     (distinct (map cust_id (customers_tbl st)) \<and>
      (\<forall>i \<in> set (invoices_tbl st). inv_customer_id i \<in> set (map cust_id (customers_tbl st))))"

text \<open>
  The row that \<open>fetchFilteredCustomers\<close> returns for one group: the count as text, and
  both totals the formatted zero.
\<close>

definition summary_view ::
  "(int \<Rightarrow> string) \<Rightarrow> customer \<times> invoice option list \<Rightarrow> string customers_table" where
  "summary_view f g =
     \<lparr>ct_id = cust_id (fst g), ct_name = cust_name (fst g), ct_email = cust_email (fst g),
      ct_image_url = cust_image_url (fst g),
      ct_total_invoices = count_text (filter (\<lambda>oi. oi \<noteq> None) (snd g)),
      ct_total_pending = f 0, ct_total_paid = f 0\<rparr>"

subsection \<open>Example data\<close>

text \<open>
  A store with two customers: Ann Smith with seven invoices, one a day from 2024-03-01,
  and Jane Doe with none. The formatter of the examples prints the minor units. The
  locale folds ASCII letters, and all rows have the same rank.
\<close>

definition example_format :: "int \<Rightarrow> string" where
  "example_format a = int_text a @ '' cents''"

definition ann :: customer where
  "ann = \<lparr>cust_id = ''c1'', cust_name = ''Ann Smith'', cust_email = ''ann@example.org'',
          cust_image_url = None\<rparr>"

definition jane :: customer where
  "jane = \<lparr>cust_id = ''c2'', cust_name = ''Jane Doe'', cust_email = ''jd@example.org'',
           cust_image_url = Some ''/customers/jane.png''\<rparr>"

definition example_invoice :: "string \<Rightarrow> nat \<Rightarrow> int \<Rightarrow> status \<Rightarrow> invoice" where
  "example_invoice ident day a s =
     \<lparr>inv_id = ident, inv_customer_id = ''c1'', inv_amount = a,
      inv_date = (2024, 3, day), inv_status = s\<rparr>"

definition example_store :: store where
  "example_store =
     \<lparr>revenue_tbl = [\<lparr>month = ''Jan'', revenue = 2000\<rparr>, \<lparr>month = ''Feb'', revenue = 1800\<rparr>],
      invoices_tbl =
        [example_invoice ''inv1'' 1 15795 Pending, example_invoice ''inv2'' 2 20348 Pending,
         example_invoice ''inv3'' 3 3040 Paid, example_invoice ''inv4'' 4 44800 Paid,
         example_invoice ''inv5'' 5 34577 Pending, example_invoice ''inv6'' 6 54246 Canceled,
         example_invoice ''inv7'' 7 666 Paid],
      customers_tbl = [ann, jane],
      fault = (\<lambda>s. None),
      locale_lower = lower_char,
      tie_rank = (\<lambda>r. 0)\<rparr>"

text \<open>The same store with every statement failing.\<close>

definition failing_store :: store where
  "failing_store = example_store\<lparr>fault := (\<lambda>s. Some (DbError ''connection refused''))\<rparr>"

text \<open>
  A larger store: a third customer, Lee Wong, with three invoices, two of them on the
  day of Ann's fourth; the store returns Lee's rows first among equal dates.
\<close>

definition lee :: customer where
  "lee = \<lparr>cust_id = ''c3'', cust_name = ''Lee Wong'', cust_email = ''lee@example.org'',
          cust_image_url = None\<rparr>"

definition lee_invoice :: "string \<Rightarrow> nat \<Rightarrow> int \<Rightarrow> status \<Rightarrow> invoice" where
  "lee_invoice ident day a s =
     \<lparr>inv_id = ident, inv_customer_id = ''c3'', inv_amount = a,
      inv_date = (2024, 3, day), inv_status = s\<rparr>"

definition larger_store :: store where
  "larger_store =
     example_store
       \<lparr>invoices_tbl := invoices_tbl example_store @
          [lee_invoice ''inv8'' 4 1250 Paid, lee_invoice ''inv9'' 4 8945 Pending,
           lee_invoice ''inv10'' 9 500 Paid],
        customers_tbl := [ann, jane, lee],
        tie_rank := (\<lambda>r. if inv_customer_id (fst r) = ''c3'' then 0 else 1)\<rparr>"

text \<open>A customer whose name begins with the Latin-1 capital \<open>0xC9\<close> (E acute).\<close>

definition emile :: customer where
  "emile = \<lparr>cust_id = ''c4'', cust_name = CHR 0xC9 # ''mile Roux'',
            cust_email = ''roux@example.org'', cust_image_url = None\<rparr>"

section \<open>Properties of the building blocks\<close>

subsection \<open>Counts as text\<close>

lemma of_char_digit_char: "d < 10 \<Longrightarrow> (of_char (digit_char d) :: nat) = 48 + d"
  by (simp add: digit_char_def)

lemma is_digit_digit_char: "d < 10 \<Longrightarrow> is_digit (digit_char d)"
  by (simp add: is_digit_def of_char_digit_char)

lemma digit_val_digit_char: "d < 10 \<Longrightarrow> digit_val (digit_char d) = d"
  by (simp add: digit_val_def of_char_digit_char)

lemma nat_text_digits: "list_all is_digit (nat_text n)"
proof (induction n rule: nat_text.induct)
  case (1 n)
  show ?case
  proof (cases "n < 10")
    case True
    then show ?thesis by (simp add: nat_text.simps [of n] is_digit_digit_char)
  next
    case False
    with 1 show ?thesis by (simp add: nat_text.simps [of n] is_digit_digit_char)
  qed
qed

lemma nat_text_value: "foldl (\<lambda>acc c. acc * 10 + digit_val c) 0 (nat_text n) = n"
proof (induction n rule: nat_text.induct)
  case (1 n)
  show ?case
  proof (cases "n < 10")
    case True
    then show ?thesis by (simp add: nat_text.simps [of n] digit_val_digit_char)
  next
    case False
    with 1 show ?thesis by (simp add: nat_text.simps [of n] digit_val_digit_char)
  qed
qed

lemma Number_text_nat_text: "Number_text (nat_text n) = Some (int n)"
  by (simp add: Number_text_def nat_text_digits nat_text_value)

lemma count_text_Nil: "count_text [] = ''0''"
  by code_simp

subsection \<open>Patterns\<close>

lemma like_percent_iff:
  "like_match lc t (CHR ''%'' # ps) \<longleftrightarrow> (\<exists>pre suf. t = pre @ suf \<and> like_match lc suf ps)"
proof (induction t)
  case Nil
  then show ?case by simp
next
  case (Cons x t)
  show ?case
  proof
    assume "like_match lc (x # t) (CHR ''%'' # ps)"
    then consider "like_match lc (x # t) ps" | "like_match lc t (CHR ''%'' # ps)" by auto
    then show "\<exists>pre suf. x # t = pre @ suf \<and> like_match lc suf ps"
    proof cases
      case 1
      then have "x # t = [] @ (x # t) \<and> like_match lc (x # t) ps" by simp
      then show ?thesis by blast
    next
      case 2
      with Cons obtain pre suf where "t = pre @ suf" "like_match lc suf ps" by blast
      then have "x # t = (x # pre) @ suf \<and> like_match lc suf ps" by simp
      then show ?thesis by blast
    qed
  next
    assume "\<exists>pre suf. x # t = pre @ suf \<and> like_match lc suf ps"
    then obtain pre suf where ps: "x # t = pre @ suf" "like_match lc suf ps" by blast
    show "like_match lc (x # t) (CHR ''%'' # ps)"
    proof (cases pre)
      case Nil
      with ps show ?thesis by simp
    next
      case (Cons y pre')
      with ps have "t = pre' @ suf" by simp
      with ps(2) Cons.IH have "like_match lc t (CHR ''%'' # ps)" by blast
      then show ?thesis by simp
    qed
  qed
qed

lemma like_literal_iff:
  "\<not> like_special p \<Longrightarrow>
   like_match lc t (p # ps) \<longleftrightarrow> (\<exists>x ts. t = x # ts \<and> lc x = lc p \<and> like_match lc ts ps)"
  by (cases t) (auto simp: like_special_def)

lemma like_plain_append:
  "plain_query q \<Longrightarrow>
   like_match lc t (q @ ps) \<longleftrightarrow>
     (\<exists>pre ts. t = pre @ ts \<and> map lc pre = map lc q \<and> like_match lc ts ps)"
proof (induction q arbitrary: t)
  case Nil
  then show ?case by simp
next
  case (Cons c q)
  then have c: "\<not> like_special c" and q: "plain_query q" by (simp_all add: plain_query_def)
  show ?case
  proof
    assume "like_match lc t ((c # q) @ ps)"
    then obtain x ts where t: "t = x # ts" "lc x = lc c" "like_match lc ts (q @ ps)"
      unfolding append_Cons like_literal_iff [OF c] by blast
    from t(3) obtain pre ts' where "ts = pre @ ts'" "map lc pre = map lc q" "like_match lc ts' ps"
      unfolding Cons.IH [OF q] by blast
    with t have "t = (x # pre) @ ts' \<and> map lc (x # pre) = map lc (c # q) \<and> like_match lc ts' ps"
      by simp
    then show "\<exists>pre ts. t = pre @ ts \<and> map lc pre = map lc (c # q) \<and> like_match lc ts ps"
      by blast
  next
    assume "\<exists>pre ts. t = pre @ ts \<and> map lc pre = map lc (c # q) \<and> like_match lc ts ps"
    then obtain pre ts where p: "t = pre @ ts" "map lc pre = map lc (c # q)" "like_match lc ts ps"
      by blast
    from p(2) obtain x pre' where pre: "pre = x # pre'" "lc x = lc c" "map lc pre' = map lc q"
      by (cases pre) auto
    have "like_match lc (pre' @ ts) (q @ ps)"
      unfolding Cons.IH [OF q] using pre(3) p(3) by blast
    with p(1) pre show "like_match lc t ((c # q) @ ps)"
      unfolding append_Cons like_literal_iff [OF c] by simp
  qed
qed

lemma like_any: "like_match lc t ''%''"
proof -
  have "t = t @ [] \<and> like_match lc [] []" by simp
  then show ?thesis unfolding like_percent_iff by blast
qed

lemma sublist_map_iff:
  "sublist (map f q) (map f t) \<longleftrightarrow> (\<exists>a pre b. t = a @ pre @ b \<and> map f pre = map f q)"
proof
  assume "sublist (map f q) (map f t)"
  then obtain ps ss where "map f t = ps @ map f q @ ss" by (auto simp: sublist_def)
  then obtain a rest where a: "t = a @ rest" "map f rest = map f q @ ss"
    by (metis map_eq_append_conv)
  from a(2) obtain pre b where "rest = pre @ b" "map f pre = map f q"
    by (metis map_eq_append_conv)
  with a(1) show "\<exists>a pre b. t = a @ pre @ b \<and> map f pre = map f q" by blast
next
  assume "\<exists>a pre b. t = a @ pre @ b \<and> map f pre = map f q"
  then obtain a pre b where "t = a @ pre @ b" "map f pre = map f q" by blast
  then have "map f t = map f a @ map f q @ map f b" by simp
  then show "sublist (map f q) (map f t)" by (simp only: sublist_appendI)
qed

lemma like_contains:
  assumes "plain_query q"
  shows "like_match lc t (''%'' @ q @ ''%'') \<longleftrightarrow> sublist (map lc q) (map lc t)"
proof -
  have "like_match lc t (''%'' @ q @ ''%'') \<longleftrightarrow>
          (\<exists>a suf. t = a @ suf \<and> like_match lc suf (q @ ''%''))"
    using like_percent_iff [of lc t "q @ ''%''"] by simp
  also have "\<dots> \<longleftrightarrow> (\<exists>a suf. t = a @ suf \<and> (\<exists>pre b. suf = pre @ b \<and> map lc pre = map lc q))"
    by (simp only: like_plain_append [OF assms] like_any simp_thms)
  also have "\<dots> \<longleftrightarrow> (\<exists>a pre b. t = a @ pre @ b \<and> map lc pre = map lc q)"
    by blast
  also have "\<dots> \<longleftrightarrow> sublist (map lc q) (map lc t)"
    by (simp only: sublist_map_iff)
  finally show ?thesis .
qed

lemma ilike_contains:
  "plain_query q \<Longrightarrow> ilike lc t (''%'' @ q @ ''%'') \<longleftrightarrow> contains_ci lc t q"
  unfolding ilike_def contains_ci_def by (rule like_contains)

lemma invoice_where_plain:
  "plain_query query \<Longrightarrow>
   invoice_where lc (''%'' @ query @ ''%'') r = any_field_contains lc query r"
  by (simp only: invoice_where_def any_field_contains_def ilike_contains)

lemma any_field_contains_empty: "any_field_contains lc [] r"
  by (simp add: any_field_contains_def contains_ci_def)

subsection \<open>Statements that run\<close>

lemma sql_runs: "fault st s = None \<Longrightarrow> sql st s q = q"
  by (simp add: sql_def)

lemma sql_fails: "fault st s = Some e \<Longrightarrow> sql st s q = Inl e"
  by (simp add: sql_def)

lemma try_catch_Inr: "try_catch tag msg (Inr v) = ([], Inr v)"
  by (simp add: try_catch_def)

lemma try_catch_Inl: "try_catch tag msg (Inl e) = ([(tag, e)], Inl msg)"
  by (simp add: try_catch_def)

lemma filter_key_unique:
  "distinct (map f cs) \<Longrightarrow> k \<in> set (map f cs) \<Longrightarrow> length (filter (\<lambda>c. k = f c) cs) = 1"
proof (induction cs)
  case Nil
  then show ?case by simp
next
  case (Cons c cs)
  show ?case
  proof (cases "k = f c")
    case True
    with Cons.prems have "filter (\<lambda>c. k = f c) cs = []"
      by (auto simp: filter_empty_conv)
    with True show ?thesis by simp
  next
    case False
    with Cons show ?thesis by simp
  qed
qed

lemma length_join_customers:
  "\<forall>i \<in> set is. length (filter (\<lambda>c. inv_customer_id i = cust_id c) cs) = 1 \<Longrightarrow>
   length (join_customers is cs) = length is"
  by (induction "is") (simp_all add: join_customers_def)

lemma length_join_integrity:
  assumes "referential_integrity st"
  shows "length (join_customers (invoices_tbl st) (customers_tbl st)) = length (invoices_tbl st)"
  using assms filter_key_unique [of cust_id "customers_tbl st"]
  by (intro length_join_customers) (simp add: referential_integrity_def)

lemma matchCount_empty_query:
  assumes "referential_integrity st"
  shows "matchCount st [] = length (invoices_tbl st)"
proof -
  have "filter (any_field_contains (locale_lower st) []) rows = rows" for rows
    using any_field_contains_empty by (simp add: filter_id_conv)
  with length_join_integrity [OF assms] show ?thesis by (simp add: matchCount_def)
qed

lemma fetchInvoicesPages_runs:
  assumes "fault st CountFilteredInvoices = None"
  shows "fetchInvoicesPages st query =
           ([], Inr (Some \<lceil>(of_nat (length (filter
              (invoice_where (locale_lower st) (''%'' @ query @ ''%''))
              (join_customers (invoices_tbl st) (customers_tbl st)))) :: rat) / 6\<rceil>))"
  using assms
  by (simp add: fetchInvoicesPages_def sql_runs try_catch_Inr count_text_def
      Number_text_nat_text ITEMS_PER_PAGE_def)

lemma mset_order_by_date_desc: "mset (order_by_date_desc rank rows) = mset rows"
  by (simp add: order_by_date_desc_def)

lemma length_order_by_date_desc: "length (order_by_date_desc rank rows) = length rows"
  by (simp add: order_by_date_desc_def)


lemma sorted_order_by_date_desc:
  "sorted (rev (map (\<lambda>r. inv_date (fst r)) (order_by_date_desc rank rows)))"
  by (simp add: order_by_date_desc_def rev_map)

lemma sql_sum_case_status:
  "(case sql_sum (map (amount_if_status s) is) of None \<Rightarrow> 0 | Some v \<Rightarrow> v) =
     sum_list (map inv_amount (filter (\<lambda>i. inv_status i = s) is))"
proof -
  have "sum_list (map (amount_if_status s) is) =
          sum_list (map inv_amount (filter (\<lambda>i. inv_status i = s) is))"
    by (induction "is") (simp_all add: amount_if_status_def)
  then show ?thesis by (simp add: sql_sum_def)
qed

lemma fetchCardData_runs:
  assumes "fault st CountInvoices = None" "fault st CountCustomers = None"
    "fault st SumInvoiceStatus = None"
  shows "fetchCardData formatCurrency st =
    ([], Inr \<lparr>numberOfCustomers = Some (int (length (customers_tbl st))),
              numberOfInvoices = Some (int (length (invoices_tbl st))),
              totalPaidInvoices = formatCurrency
                 (sum_list (map inv_amount (filter (\<lambda>i. inv_status i = Paid) (invoices_tbl st)))),
              totalPendingInvoices = formatCurrency
                 (sum_list (map inv_amount (filter (\<lambda>i. inv_status i = Pending) (invoices_tbl st))))\<rparr>)"
  using assms
  by (simp add: fetchCardData_def sql_runs try_catch_Inr count_text_def Number_text_nat_text
      sql_sum_case_status)

lemma fetchFilteredInvoices_runs:
  assumes "fault st SelectFilteredInvoices = None" "1 \<le> page" "(page - 1) * 6 \<le> 9223372036854775807"
  shows "fetchFilteredInvoices st query page =
           ([], Inr (take 6 (drop (nat ((page - 1) * 6))
              (map table_row (order_by_date_desc (tie_rank st)
                 (filter (invoice_where (locale_lower st) (''%'' @ query @ ''%''))
                    (join_customers (invoices_tbl st) (customers_tbl st))))))))"
  using assms
  by (simp add: fetchFilteredInvoices_def sql_runs try_catch_Inr limit_offset_def
      ITEMS_PER_PAGE_def Let_def)


lemma take_one_filter:
  "take (Suc 0) (map g (filter P xs)) = (case List.find P xs of None \<Rightarrow> [] | Some x \<Rightarrow> [g x])"
  by (induction xs) simp_all

lemma fetchInvoiceById_runs:
  assumes "fault st SelectInvoiceById = None"
  shows "fetchInvoiceById st ident =
    ([], Inr (case List.find (\<lambda>i. inv_id i = ident) (invoices_tbl st) of None \<Rightarrow> None
       | Some i \<Rightarrow> Some \<lparr>if_id = inv_id i, if_customer_id = inv_customer_id i,
                          if_amount = of_int (inv_amount i) / 100, if_status = inv_status i\<rparr>))"
  using assms
  by (simp add: fetchInvoiceById_def sql_runs take_one_filter form_row_def try_catch_Inr
      split: option.splits)

lemma fetchLatestInvoices_runs:
  assumes "fault st SelectLatestInvoices = None"
  shows "fetchLatestInvoices formatCurrency st =
    ([], Inr (map (\<lambda>r. \<lparr>li_amount = formatCurrency (inv_amount (fst r)),
                        li_name = cust_name (snd r), li_image_url = cust_image_url (snd r),
                        li_email = cust_email (snd r), li_id = inv_id (fst r)\<rparr>)
               (take 5 (order_by_date_desc (tie_rank st)
                  (join_customers (invoices_tbl st) (customers_tbl st))))))"
  using assms
  by (simp add: fetchLatestInvoices_def sql_runs try_catch_Inr latest_row_def comp_def)

subsection \<open>The left join and its groups\<close>

lemma left_join_cases:
  assumes "(c, oi) \<in> set (left_join_invoices cs is)"
  shows "c \<in> set cs \<and> (oi = None \<and> (\<forall>i \<in> set is. inv_customer_id i \<noteq> cust_id c) \<or>
           (\<exists>i \<in> set is. oi = Some i \<and> inv_customer_id i = cust_id c))"
proof -
  from assms obtain c' where c': "c' \<in> set cs"
    and mem: "(c, oi) \<in> set (case filter (\<lambda>i. cust_id c' = inv_customer_id i) is of
                  [] \<Rightarrow> [(c', None)] | js \<Rightarrow> map (\<lambda>i. (c', Some i)) js)"
    by (auto simp: left_join_invoices_def)
  show ?thesis
  proof (cases "filter (\<lambda>i. cust_id c' = inv_customer_id i) is")
    case Nil
    with mem have "c = c'" "oi = None" by simp_all
    moreover from Nil have "\<forall>i \<in> set is. inv_customer_id i \<noteq> cust_id c'"
      by (auto simp: filter_empty_conv)
    ultimately show ?thesis using c' by simp
  next
    case (Cons j js)
    with mem obtain i where i: "i \<in> set (j # js)" "c = c'" "oi = Some i" by auto
    from i(1) have "i \<in> set (filter (\<lambda>i. cust_id c' = inv_customer_id i) is)"
      by (simp only: Cons)
    with i c' show ?thesis by auto
  qed
qed

lemma left_join_no_invoices:
  assumes "c \<in> set cs" "\<forall>i \<in> set is. inv_customer_id i \<noteq> cust_id c"
  shows "(c, None) \<in> set (left_join_invoices cs is)"
proof -
  from assms(2) have "filter (\<lambda>i. cust_id c = inv_customer_id i) is = []"
    by (auto simp: filter_empty_conv)
  with assms(1) show ?thesis
    by (force simp: left_join_invoices_def)
qed

text \<open>
  Whatever the sum, the client delivers text or \<open>null\<close>, and the function formats zero.
\<close>

lemma format_finite_bigint: "format_finite f (bigint_value x) = f 0"
  by (simp add: format_finite_def bigint_value_def Number_isFinite_def split: option.splits)

lemma summary_view_eq:
  "\<lparr>ct_id = ct_id (summary_row g), ct_name = ct_name (summary_row g),
    ct_email = ct_email (summary_row g), ct_image_url = ct_image_url (summary_row g),
    ct_total_invoices = ct_total_invoices (summary_row g),
    ct_total_pending = format_finite f (ct_total_pending (summary_row g)),
    ct_total_paid = format_finite f (ct_total_paid (summary_row g))\<rparr> = summary_view f g"
  by (simp add: summary_row_def summary_view_def format_finite_bigint)

lemma fetchFilteredCustomers_rows:
  assumes "fault st SelectFilteredCustomers = None"
  shows "\<exists>rows. fetchFilteredCustomers f st query = ([], Inr rows) \<and>
           set rows = summary_view f ` set (group_by_customer
             (filter (\<lambda>r. customer_where (locale_lower st) (''%'' @ query @ ''%'') (fst r))
                (left_join_invoices (customers_tbl st) (invoices_tbl st))))"
  using assms
  by (simp add: fetchFilteredCustomers_def sql_runs try_catch_Inr image_image summary_view_eq)

lemma group_by_customer_intro:
  assumes "(c, oi) \<in> set rows"
  shows "(c, map snd (filter (\<lambda>r. fst r = c) rows)) \<in> set (group_by_customer rows)"
proof -
  from assms have "c \<in> fst ` set rows" by force
  then show ?thesis by (simp add: group_by_customer_def)
qed

subsection \<open>Where the rows of a result come from\<close>


subsection \<open>The order of equal dates\<close>

text \<open>
  The rank leaves the order of equal dates as open as PostgreSQL does: every
  date-descending arrangement of distinct rows is the result for some rank.
\<close>

lemma filter_single:
  "distinct xs \<Longrightarrow> k \<in> set xs \<Longrightarrow> (\<And>x. x \<in> set xs \<Longrightarrow> P x \<longleftrightarrow> x = k) \<Longrightarrow> filter P xs = [k]"
proof (induction xs)
  case Nil
  then show ?case by simp
next
  case (Cons a xs)
  show ?case
  proof (cases "a = k")
    case True
    with Cons.prems(1) have "k \<notin> set xs" by simp
    with Cons.prems(3) have "\<forall>x \<in> set xs. \<not> P x" by auto
    then have "filter P xs = []" by (simp add: filter_empty_conv)
    moreover from True Cons.prems(3) have "P a" by simp
    ultimately show ?thesis using True by simp
  next
    case False
    with Cons.prems have "k \<in> set xs" "distinct xs" "\<not> P a" by auto
    with Cons.IH Cons.prems(3) show ?thesis by simp
  qed
qed

lemma order_by_date_desc_realised:
  assumes "distinct rows" and "mset srt = mset rows"
    and "sorted (rev (map (\<lambda>r. inv_date (fst r)) srt))"
  shows "\<exists>rank. order_by_date_desc rank rows = srt"
proof -
  define rank where "rank r = length (takeWhile (\<lambda>x. x \<noteq> r) srt)" for r
  have d: "distinct srt"
    using assms(1,2) by (metis mset_eq_imp_distinct_iff)
  have s: "set srt = set rows"
    using assms(2) by (metis set_mset_mset)
  have pos: "rank r < length srt \<and> srt ! rank r = r" if "r \<in> set srt" for r
  proof -
    from that have "takeWhile (\<lambda>x. x \<noteq> r) srt \<noteq> srt" by auto
    then have l: "rank r < length srt"
      unfolding rank_def using length_takeWhile_le [of "\<lambda>x. x \<noteq> r" srt]
      by (metis le_neq_implies_less takeWhile_eq_take take_all_iff linorder_not_le)
    with nth_length_takeWhile [of "\<lambda>x. x \<noteq> r" srt] show ?thesis
      by (simp add: rank_def)
  qed
  have inj: "rank a = rank b \<longleftrightarrow> a = b" if "a \<in> set srt" "b \<in> set srt" for a b
    using pos [OF that(1)] pos [OF that(2)] by metis
  have idx: "rank (srt ! i) = i" if "i < length srt" for i
    using pos [of "srt ! i"] that d nth_eq_iff_index_eq [of srt "rank (srt ! i)" i] by auto
  have "map rank srt = [0..<length srt]"
    by (rule nth_equalityI) (simp_all add: idx)
  then have sorted: "sorted (map rank srt)" by simp
  have "sort_key rank rows = srt"
  proof (rule properties_for_sort_key [OF assms(2) _ sorted])
    fix k assume k: "k \<in> set srt"
    have "filter (\<lambda>x. rank k = rank x) srt = [k]"
      using d k inj [OF k] by (intro filter_single) auto
    moreover have "filter (\<lambda>x. rank k = rank x) rows = [k]"
      using assms(1) k inj [OF k] s by (intro filter_single) auto
    ultimately show "filter (\<lambda>x. rank k = rank x) srt = filter (\<lambda>x. rank k = rank x) rows"
      by simp
  qed
  moreover have "sort_key (\<lambda>r. inv_date (fst r)) (rev srt) = rev srt"
    using assms(3) by (intro sort_key_id_if_sorted) (simp add: rev_map)
  ultimately have "order_by_date_desc rank rows = srt"
    by (simp add: order_by_date_desc_def)
  then show ?thesis by blast
qed


section \<open>The claims\<close>

text \<open>
  Claim C1, as stated, counts the rows of which a field contains the query. The query
  \<open>_\<close> is a wildcard to \<open>ILIKE\<close>: no field of the example store contains an underscore,
  so \<open>matchCount\<close> is 0 and the claim gives 0 pages, and the function returns 2.
\<close>

theorem fetchInvoicesPages_wildcard_counterexample:
  "snd (fetchInvoicesPages example_store ''_'') = Inr (Some 2) \<and>
   matchCount example_store ''_'' = 0"
proof -
  have h: "fault example_store CountFilteredInvoices = None"
    by (simp add: example_store_def)
  have n: "length (filter (invoice_where (locale_lower example_store) (''%'' @ ''_'' @ ''%''))
      (join_customers (invoices_tbl example_store) (customers_tbl example_store))) = 7"
    by code_simp
  have c: "\<lceil>(7::rat) / 6\<rceil> = 2"
    by (rule ceiling_unique) simp_all
  have m: "matchCount example_store ''_'' = 0"
    by code_simp
  from fetchInvoicesPages_runs [OF h, of "''_''"] n c m show ?thesis by simp
qed

text \<open>
  Claim C1, amended. For every query without the characters \<open>%\<close>, \<open>_\<close> and backslash,
  \<open>fetchInvoicesPages(query)\<close> returns, when its statement runs,
  \<open>ceil(matchCount(query) / 6)\<close>, where \<open>matchCount(query)\<close> is the number of invoice
  rows, joined with their customer, of which the customer name, the customer email, the
  amount as text, the date as text or the status contains the query as a
  case-insensitive substring. On a store that keeps the invariant of the data model
  (every invoice has exactly one customer), \<open>matchCount("")\<close> is the number of rows of
  the invoices table.
\<close>

theorem fetchInvoicesPages_ceil:
  assumes "plain_query query" and "fault st CountFilteredInvoices = None"
  shows "snd (fetchInvoicesPages st query) =
           Inr (Some \<lceil>(of_nat (matchCount st query) :: rat) / 6\<rceil>) \<and>
         (referential_integrity st \<longrightarrow> matchCount st '''' = length (invoices_tbl st))"
proof -
  have "invoice_where (locale_lower st) (''%'' @ query @ ''%'') =
          any_field_contains (locale_lower st) query"
    using invoice_where_plain [OF assms(1)] by (intro ext)
  then have "snd (fetchInvoicesPages st query) =
      Inr (Some \<lceil>(of_nat (matchCount st query) :: rat) / 6\<rceil>)"
    unfolding fetchInvoicesPages_runs [OF assms(2)] matchCount_def by (simp only: snd_conv)
  with matchCount_empty_query [of st] show ?thesis by simp
qed

theorem fetchInvoicesPages_ceil_witness:
  "plain_query ''smith'' \<and>
   fault larger_store CountFilteredInvoices = None \<and>
   referential_integrity larger_store \<and>
   matchCount larger_store ''smith'' = 7 \<and>
   snd (fetchInvoicesPages larger_store ''smith'') = Inr (Some 2) \<and>
   length (invoices_tbl larger_store) = 10 \<and>
   matchCount larger_store '''' = 10"
proof -
  have p: "plain_query ''smith''"
    by code_simp
  have h: "fault larger_store CountFilteredInvoices = None"
    by (simp add: larger_store_def example_store_def)
  have r: "referential_integrity larger_store"
    by code_simp
  have m: "matchCount larger_store ''smith'' = 7"
    by code_simp
  have l: "length (invoices_tbl larger_store) = 10"
    by (simp add: larger_store_def example_store_def)
  have c: "\<lceil>(7::rat) / 6\<rceil> = 2"
    by (rule ceiling_unique) simp_all
  from fetchInvoicesPages_ceil [OF p h] r m l c
  have "snd (fetchInvoicesPages larger_store ''smith'') = Inr (Some 2)"
    and "matchCount larger_store '''' = 10"
    by simp_all
  with p h r m l show ?thesis by blast
qed




text \<open>
  Claim C3. Every fetch function of the module, on every failure of a statement that it
  sends (for \<open>fetchFilteredInvoices\<close> also the rejected negative offset of a page below
  1), throws an error whose message is the fixed text of that function: the thrown value
  is the same for every storage error, whose detail goes to the console only.
\<close>

theorem fetch_failure_opaque:
  "(fault st SelectRevenue \<noteq> None \<longrightarrow>
      snd (fetchRevenue st) = Inl ''Failed to fetch revenue data.'') \<and>
   (fault st SelectLatestInvoices \<noteq> None \<longrightarrow>
      snd (fetchLatestInvoices f st) = Inl ''Failed to fetch the latest invoices.'') \<and>
   (fault st CountInvoices \<noteq> None \<or> fault st CountCustomers \<noteq> None \<or>
    fault st SumInvoiceStatus \<noteq> None \<longrightarrow>
      snd (fetchCardData f st) = Inl ''Failed to fetch card data.'') \<and>
   (fault st SelectFilteredInvoices \<noteq> None \<or> page < 1 \<longrightarrow>
      snd (fetchFilteredInvoices st query page) = Inl ''Failed to fetch invoices.'') \<and>
   (fault st CountFilteredInvoices \<noteq> None \<longrightarrow>
      snd (fetchInvoicesPages st query) = Inl ''Failed to fetch total number of invoices.'') \<and>
   (fault st SelectInvoiceById \<noteq> None \<longrightarrow>
      snd (fetchInvoiceById st ident) = Inl ''Failed to fetch invoice.'') \<and>
   (fault st SelectCustomers \<noteq> None \<longrightarrow>
      snd (fetchCustomers st) = Inl ''Failed to fetch all customers.'') \<and>
   (fault st SelectFilteredCustomers \<noteq> None \<longrightarrow>
      snd (fetchFilteredCustomers f st query) = Inl ''Failed to fetch customer table.'')"
proof (intro conjI impI)
  assume "fault st SelectRevenue \<noteq> None"
  then show "snd (fetchRevenue st) = Inl ''Failed to fetch revenue data.''"
    by (auto simp: fetchRevenue_def sql_fails try_catch_Inl)
next
  assume "fault st SelectLatestInvoices \<noteq> None"
  then show "snd (fetchLatestInvoices f st) = Inl ''Failed to fetch the latest invoices.''"
    by (auto simp: fetchLatestInvoices_def sql_fails try_catch_Inl)
next
  assume "fault st CountInvoices \<noteq> None \<or> fault st CountCustomers \<noteq> None \<or>
    fault st SumInvoiceStatus \<noteq> None"
  then show "snd (fetchCardData f st) = Inl ''Failed to fetch card data.''"
    by (auto simp: fetchCardData_def sql_def try_catch_def split: option.splits)
next
  assume "fault st SelectFilteredInvoices \<noteq> None \<or> page < 1"
  then show "snd (fetchFilteredInvoices st query page) = Inl ''Failed to fetch invoices.''"
    by (auto simp: fetchFilteredInvoices_def sql_def try_catch_def limit_offset_def
        ITEMS_PER_PAGE_def Let_def split: option.splits)
next
  assume "fault st CountFilteredInvoices \<noteq> None"
  then show "snd (fetchInvoicesPages st query) = Inl ''Failed to fetch total number of invoices.''"
    by (auto simp: fetchInvoicesPages_def sql_fails try_catch_Inl)
next
  assume "fault st SelectInvoiceById \<noteq> None"
  then show "snd (fetchInvoiceById st ident) = Inl ''Failed to fetch invoice.''"
    by (auto simp: fetchInvoiceById_def sql_fails try_catch_Inl)
next
  assume "fault st SelectCustomers \<noteq> None"
  then show "snd (fetchCustomers st) = Inl ''Failed to fetch all customers.''"
    by (auto simp: fetchCustomers_def sql_fails try_catch_Inl)
next
  assume "fault st SelectFilteredCustomers \<noteq> None"
  then show "snd (fetchFilteredCustomers f st query) = Inl ''Failed to fetch customer table.''"
    by (auto simp: fetchFilteredCustomers_def sql_fails try_catch_Inl)
qed

theorem fetch_failure_opaque_witness:
  "(\<forall>s. fault failing_store s = Some (DbError ''connection refused'')) \<and>
   snd (fetchRevenue failing_store) = Inl ''Failed to fetch revenue data.'' \<and>
   snd (fetchLatestInvoices example_format failing_store) =
     Inl ''Failed to fetch the latest invoices.'' \<and>
   snd (fetchCardData example_format failing_store) = Inl ''Failed to fetch card data.'' \<and>
   snd (fetchFilteredInvoices failing_store ''smith'' 1) = Inl ''Failed to fetch invoices.'' \<and>
   snd (fetchFilteredInvoices example_store ''smith'' 0) = Inl ''Failed to fetch invoices.'' \<and>
   snd (fetchInvoicesPages failing_store ''smith'') =
     Inl ''Failed to fetch total number of invoices.'' \<and>
   snd (fetchInvoiceById failing_store ''inv3'') = Inl ''Failed to fetch invoice.'' \<and>
   snd (fetchCustomers failing_store) = Inl ''Failed to fetch all customers.'' \<and>
   snd (fetchFilteredCustomers example_format failing_store ''jane'') =
     Inl ''Failed to fetch customer table.''"
proof -
  have h: "fault failing_store s = Some (DbError ''connection refused'')" for s
    by (simp add: failing_store_def)
  show ?thesis
    using h fetch_failure_opaque [of failing_store example_format 1 "''smith''" "''inv3''"]
      fetch_failure_opaque [of example_store example_format 0 "''smith''" "''inv3''"]
      fetch_failure_opaque [of failing_store example_format 1 "''jane''" "''inv3''"]
    by simp
qed

text \<open>
  Claim C4. For every id that no invoice row has, \<open>fetchInvoiceById(id)\<close> returns
  \<open>undefined\<close>, the not-found value, when its statement runs: nothing is thrown and
  nothing is written to the console.
\<close>

theorem fetchInvoiceById_not_found:
  assumes "fault st SelectInvoiceById = None"
    and "\<forall>i \<in> set (invoices_tbl st). inv_id i \<noteq> ident"
  shows "fetchInvoiceById st ident = ([], Inr None)"
proof -
  from assms(2) have "List.find (\<lambda>i. inv_id i = ident) (invoices_tbl st) = None"
    by (simp add: find_None_iff)
  with fetchInvoiceById_runs [OF assms(1), of ident] show ?thesis by simp
qed

theorem fetchInvoiceById_not_found_witness:
  "fault example_store SelectInvoiceById = None \<and>
   list_all (\<lambda>i. inv_id i \<noteq> ''inv9'') (invoices_tbl example_store) \<and>
   fetchInvoiceById example_store ''inv9'' = ([], Inr None)"
proof -
  have h: "fault example_store SelectInvoiceById = None"
    by (simp add: example_store_def)
  have l: "list_all (\<lambda>i. inv_id i \<noteq> ''inv9'') (invoices_tbl example_store)"
    by code_simp
  then have n: "\<forall>i \<in> set (invoices_tbl example_store). inv_id i \<noteq> ''inv9''"
    by (simp only: list_all_iff)
  from h l fetchInvoiceById_not_found [OF h n] show ?thesis by blast
qed



text \<open>
  Claim C6, as stated, asks for exactly 5 rows. On a store with two invoices the function
  returns two rows.
\<close>

theorem fetchLatestInvoices_short_counterexample:
  "snd (fetchLatestInvoices example_format
          (example_store\<lparr>invoices_tbl :=
             [example_invoice ''inv1'' 1 15795 Pending, example_invoice ''inv2'' 2 20348 Pending]\<rparr>)) =
     Inr [\<lparr>li_amount = ''20348 cents'', li_name = ''Ann Smith'', li_image_url = None,
            li_email = ''ann@example.org'', li_id = ''inv2''\<rparr>,
          \<lparr>li_amount = ''15795 cents'', li_name = ''Ann Smith'', li_image_url = None,
            li_email = ''ann@example.org'', li_id = ''inv1''\<rparr>]"
  by code_simp

text \<open>
  Claim C6, amended. When its statement runs, \<open>fetchLatestInvoices()\<close> returns the first 5
  rows, or all rows if there are fewer, of the invoices joined with their customers and
  ordered by date descending, each with the customer's name, email and image_url and
  with the amount formatted; on a store that keeps the invariant of the data model these
  are \<open>min(5, n)\<close> rows for \<open>n\<close> invoices.
\<close>

theorem fetchLatestInvoices_latest:
  assumes "fault st SelectLatestInvoices = None"
  shows "\<exists>srt rows.
           mset srt = mset (join_customers (invoices_tbl st) (customers_tbl st)) \<and>
           sorted (rev (map (\<lambda>r. inv_date (fst r)) srt)) \<and>
           snd (fetchLatestInvoices f st) = Inr rows \<and>
           rows = map (\<lambda>r. \<lparr>li_amount = f (inv_amount (fst r)), li_name = cust_name (snd r),
                             li_image_url = cust_image_url (snd r), li_email = cust_email (snd r),
                             li_id = inv_id (fst r)\<rparr>) (take 5 srt) \<and>
           length rows = min 5 (length (join_customers (invoices_tbl st) (customers_tbl st))) \<and>
           (referential_integrity st \<longrightarrow> length rows = min 5 (length (invoices_tbl st)))"
proof -
  let ?J = "join_customers (invoices_tbl st) (customers_tbl st)"
  let ?srt = "order_by_date_desc (tie_rank st) ?J"
  let ?view = "\<lambda>r. \<lparr>li_amount = f (inv_amount (fst r)), li_name = cust_name (snd r),
      li_image_url = cust_image_url (snd r), li_email = cust_email (snd r), li_id = inv_id (fst r)\<rparr>"
  have 1: "mset ?srt = mset ?J" by (rule mset_order_by_date_desc)
  have 2: "sorted (rev (map (\<lambda>r. inv_date (fst r)) ?srt))" by (rule sorted_order_by_date_desc)
  have 3: "snd (fetchLatestInvoices f st) = Inr (map ?view (take 5 ?srt))"
    using assms by (simp add: fetchLatestInvoices_runs)
  have 4: "length (map ?view (take 5 ?srt)) = min 5 (length ?J)"
    by (simp add: length_order_by_date_desc min.commute)
  have 5: "length (map ?view (take 5 ?srt)) = min 5 (length (invoices_tbl st))"
    if "referential_integrity st"
  proof -
    from that have "length ?J = length (invoices_tbl st)"
      by (rule length_join_integrity)
    with 4 show ?thesis by simp
  qed
  from 1 2 3 4 5 show ?thesis by blast
qed

theorem fetchLatestInvoices_latest_witness:
  "fault example_store SelectLatestInvoices = None \<and>
   referential_integrity example_store \<and>
   map li_id (projr (snd (fetchLatestInvoices example_format example_store))) =
     [''inv7'', ''inv6'', ''inv5'', ''inv4'', ''inv3''] \<and>
   (\<exists>rows. snd (fetchLatestInvoices example_format example_store) = Inr rows \<and> length rows = 5)"
proof -
  have h: "fault example_store SelectLatestInvoices = None"
    by (simp add: example_store_def)
  have r: "referential_integrity example_store"
    by code_simp
  have l: "length (invoices_tbl example_store) = 7"
    by (simp add: example_store_def)
  have i: "map li_id (projr (snd (fetchLatestInvoices example_format example_store))) =
     [''inv7'', ''inv6'', ''inv5'', ''inv4'', ''inv3'']"
    by code_simp
  from fetchLatestInvoices_latest [OF h, of example_format] r l
  have "\<exists>rows. snd (fetchLatestInvoices example_format example_store) = Inr rows \<and> length rows = 5"
    by auto
  with h r i show ?thesis by blast
qed

text \<open>
  Claim C7. When its three statements run, \<open>fetchCardData()\<close> returns the number of rows of
  the invoices table, the number of rows of the customers table, the formatted sum of the
  amounts of the invoices with status paid, and the formatted sum of those with status
  pending.
\<close>

theorem fetchCardData_totals:
  assumes "fault st CountInvoices = None" "fault st CountCustomers = None"
    "fault st SumInvoiceStatus = None"
  shows "snd (fetchCardData f st) =
    Inr \<lparr>numberOfCustomers = Some (int (length (customers_tbl st))),
          numberOfInvoices = Some (int (length (invoices_tbl st))),
          totalPaidInvoices =
            f (sum_list (map inv_amount (filter (\<lambda>i. inv_status i = Paid) (invoices_tbl st)))),
          totalPendingInvoices =
            f (sum_list (map inv_amount (filter (\<lambda>i. inv_status i = Pending) (invoices_tbl st))))\<rparr>"
  using assms by (simp add: fetchCardData_runs)

theorem fetchCardData_totals_witness:
  "fault example_store CountInvoices = None \<and> fault example_store CountCustomers = None \<and>
   fault example_store SumInvoiceStatus = None \<and>
   snd (fetchCardData example_format example_store) =
     Inr \<lparr>numberOfCustomers = Some 2, numberOfInvoices = Some 7,
           totalPaidInvoices = ''48506 cents'', totalPendingInvoices = ''70720 cents''\<rparr>"
proof -
  have h: "fault example_store CountInvoices = None" "fault example_store CountCustomers = None"
    "fault example_store SumInvoiceStatus = None"
    by (simp_all add: example_store_def)
  have c: "length (customers_tbl example_store) = 2" "length (invoices_tbl example_store) = 7"
    by (simp_all add: example_store_def)
  have p: "example_format (sum_list (map inv_amount
        (filter (\<lambda>i. inv_status i = Paid) (invoices_tbl example_store)))) = ''48506 cents''"
    by code_simp
  have q: "example_format (sum_list (map inv_amount
        (filter (\<lambda>i. inv_status i = Pending) (invoices_tbl example_store)))) = ''70720 cents''"
    by code_simp
  show ?thesis
    using h fetchCardData_totals [OF h, of example_format] by (simp add: c p q)
qed

text \<open>
  Claim C8, as stated, takes the filter for substring containment. The query \<open>_\<close> is a
  wildcard to \<open>ILIKE\<close>: the second page for it holds a row that passes the filter and of
  which no field contains an underscore.
\<close>

theorem filter_wildcard_counterexample:
  "snd (fetchFilteredInvoices example_store ''_'' 2) =
     Inr [table_row (example_invoice ''inv1'' 1 15795 Pending, ann)] \<and>
   invoice_where (locale_lower example_store) (''%'' @ ''_'' @ ''%'')
     (example_invoice ''inv1'' 1 15795 Pending, ann) \<and>
   \<not> any_field_contains (locale_lower example_store) ''_''
     (example_invoice ''inv1'' 1 15795 Pending, ann)"
  by code_simp

text \<open>
  Claim C8, amended. For every query without the characters \<open>%\<close>, \<open>_\<close> and backslash, a
  joined row passes the filter of \<open>fetchFilteredInvoices\<close> and \<open>fetchInvoicesPages\<close> if and
  only if the customer name, the customer email, the amount as text, the date as text or
  the status contains the query as a substring, up to the case folding of the database
  locale; the page (for an offset below \<open>2^53\<close>) is cut from a date-descending
  arrangement of the rows with such a field, and the page count is that of their number.
\<close>

theorem filter_plain_query:
  assumes "plain_query query"
  shows "(invoice_where (locale_lower st) (''%'' @ query @ ''%'') r \<longleftrightarrow>
            any_field_contains (locale_lower st) query r) \<and>
    (fault st SelectFilteredInvoices = None \<and> 1 \<le> page \<and> (page - 1) * 6 < 2 ^ 53 \<longrightarrow>
       (\<exists>srt. mset srt = mset (filter (any_field_contains (locale_lower st) query)
                             (join_customers (invoices_tbl st) (customers_tbl st))) \<and>
              sorted (rev (map (\<lambda>r. inv_date (fst r)) srt)) \<and>
              snd (fetchFilteredInvoices st query page) =
                Inr (take 6 (drop (nat ((page - 1) * 6)) (map table_row srt))))) \<and>
    (fault st CountFilteredInvoices = None \<longrightarrow>
       snd (fetchInvoicesPages st query) =
         Inr (Some \<lceil>(of_nat (length (filter (any_field_contains (locale_lower st) query)
                  (join_customers (invoices_tbl st) (customers_tbl st)))) :: rat) / 6\<rceil>))"
proof (intro conjI impI)
  have eq: "invoice_where (locale_lower st) (''%'' @ query @ ''%'') =
          any_field_contains (locale_lower st) query"
    using invoice_where_plain [OF assms] by (intro ext)
  show "invoice_where (locale_lower st) (''%'' @ query @ ''%'') r \<longleftrightarrow>
      any_field_contains (locale_lower st) query r"
    by (simp only: eq)
  let ?M = "filter (any_field_contains (locale_lower st) query)
              (join_customers (invoices_tbl st) (customers_tbl st))"
  {
    assume a: "fault st SelectFilteredInvoices = None \<and> 1 \<le> page \<and> (page - 1) * 6 < 2 ^ 53"
    let ?srt = "order_by_date_desc (tie_rank st) ?M"
    from a have b: "(page - 1) * 6 \<le> 9223372036854775807" by simp
    from a have h: "fault st SelectFilteredInvoices = None" and p: "1 \<le> page" by simp_all
    have "mset ?srt = mset ?M" by (rule mset_order_by_date_desc)
    moreover have "sorted (rev (map (\<lambda>r. inv_date (fst r)) ?srt))"
      by (rule sorted_order_by_date_desc)
    moreover have "snd (fetchFilteredInvoices st query page) =
        Inr (take 6 (drop (nat ((page - 1) * 6)) (map table_row ?srt)))"
      unfolding fetchFilteredInvoices_runs [OF h p b] eq by (simp only: snd_conv)
    ultimately show "\<exists>srt. mset srt = mset ?M \<and>
        sorted (rev (map (\<lambda>r. inv_date (fst r)) srt)) \<and>
        snd (fetchFilteredInvoices st query page) =
          Inr (take 6 (drop (nat ((page - 1) * 6)) (map table_row srt)))"
      by blast
  }
  {
    assume h: "fault st CountFilteredInvoices = None"
    show "snd (fetchInvoicesPages st query) =
        Inr (Some \<lceil>(of_nat (length ?M) :: rat) / 6\<rceil>)"
      unfolding fetchInvoicesPages_runs [OF h] eq by (simp only: snd_conv)
  }
qed

theorem filter_plain_query_witness:
  "plain_query ''SMITH'' \<and>
   any_field_contains (locale_lower larger_store) ''SMITH''
     (example_invoice ''inv1'' 1 15795 Pending, ann) \<and>
   invoice_where (locale_lower larger_store) (''%'' @ ''SMITH'' @ ''%'')
     (example_invoice ''inv1'' 1 15795 Pending, ann) \<and>
   fault larger_store CountFilteredInvoices = None \<and>
   snd (fetchInvoicesPages larger_store ''SMITH'') = Inr (Some 2) \<and>
   plain_query [CHR 0xE9] \<and>
   invoice_where latin1_lower (''%'' @ [CHR 0xE9] @ ''%'')
     (example_invoice ''inv1'' 1 15795 Pending, emile) \<and>
   \<not> invoice_where lower_char (''%'' @ [CHR 0xE9] @ ''%'')
     (example_invoice ''inv1'' 1 15795 Pending, emile)"
proof -
  let ?r = "(example_invoice ''inv1'' 1 15795 Pending, ann)"
  let ?e = "(example_invoice ''inv1'' 1 15795 Pending, emile)"
  have p: "plain_query ''SMITH''"
    by code_simp
  have a: "any_field_contains (locale_lower larger_store) ''SMITH'' ?r"
    by code_simp
  have h: "fault larger_store CountFilteredInvoices = None"
    by (simp add: larger_store_def example_store_def)
  have n: "length (filter (any_field_contains (locale_lower larger_store) ''SMITH'')
      (join_customers (invoices_tbl larger_store) (customers_tbl larger_store))) = 7"
    by code_simp
  have c: "\<lceil>(7::rat) / 6\<rceil> = 2"
    by (rule ceiling_unique) simp_all
  note t = filter_plain_query [OF p, of larger_store ?r 1]
  from t a have w: "invoice_where (locale_lower larger_store) (''%'' @ ''SMITH'' @ ''%'') ?r"
    by blast
  from t h have g: "snd (fetchInvoicesPages larger_store ''SMITH'') = Inr (Some 2)"
    by (simp add: n c)
  have q: "plain_query [CHR 0xE9]"
    by code_simp
  have l: "locale_lower (example_store\<lparr>locale_lower := latin1_lower\<rparr>) = latin1_lower"
    "locale_lower (example_store\<lparr>locale_lower := lower_char\<rparr>) = lower_char"
    by simp_all
  have y: "any_field_contains latin1_lower [CHR 0xE9] ?e"
    by code_simp
  have z: "\<not> any_field_contains lower_char [CHR 0xE9] ?e"
    by code_simp
  from filter_plain_query [OF q, of "example_store\<lparr>locale_lower := latin1_lower\<rparr>" ?e 1] y
  have u: "invoice_where latin1_lower (''%'' @ [CHR 0xE9] @ ''%'') ?e"
    unfolding l by blast
  from filter_plain_query [OF q, of "example_store\<lparr>locale_lower := lower_char\<rparr>" ?e 1] z
  have v: "\<not> invoice_where lower_char (''%'' @ [CHR 0xE9] @ ''%'') ?e"
    unfolding l by blast
  from p a w h g q u v show ?thesis by blast
qed

text \<open>
  Claim C9. For every customer without invoices whose name or email passes the filter,
  \<open>fetchFilteredCustomers(query)\<close> returns, when its statement runs, a row for that
  customer with \<open>total_invoices\<close> the count 0, in the decimal text \<open>"0"\<close> of the client,
  and with \<open>total_pending\<close> and \<open>total_paid\<close> equal to the formatted zero amount.
\<close>

theorem fetchFilteredCustomers_no_invoices:
  assumes "fault st SelectFilteredCustomers = None"
    and "c \<in> set (customers_tbl st)"
    and "\<forall>i \<in> set (invoices_tbl st). inv_customer_id i \<noteq> cust_id c"
    and "customer_where (locale_lower st) (''%'' @ query @ ''%'') c"
  shows "\<exists>rows. snd (fetchFilteredCustomers f st query) = Inr rows \<and>
           \<lparr>ct_id = cust_id c, ct_name = cust_name c, ct_email = cust_email c,
            ct_image_url = cust_image_url c, ct_total_invoices = ''0'',
            ct_total_pending = f 0, ct_total_paid = f 0\<rparr> \<in> set rows"
proof -
  let ?L = "left_join_invoices (customers_tbl st) (invoices_tbl st)"
  let ?F = "filter (\<lambda>r. customer_where (locale_lower st) (''%'' @ query @ ''%'') (fst r)) ?L"
  let ?g = "(c, map snd (filter (\<lambda>r. fst r = c) ?F))"
  from assms(2,3) have "(c, None) \<in> set ?L" by (rule left_join_no_invoices)
  with assms(4) have "(c, None) \<in> set ?F" by simp
  then have g: "?g \<in> set (group_by_customer ?F)" by (rule group_by_customer_intro)
  have null: "oi = None" if "oi \<in> set (snd ?g)" for oi
  proof -
    from that have "(c, oi) \<in> set ?L" by auto
    from left_join_cases [OF this] assms(3) show ?thesis by auto
  qed
  then have "filter (\<lambda>oi. oi \<noteq> None) (snd ?g) = []"
    by (simp only: filter_empty_conv) blast
  then have "summary_view f ?g =
      \<lparr>ct_id = cust_id c, ct_name = cust_name c, ct_email = cust_email c,
       ct_image_url = cust_image_url c, ct_total_invoices = ''0'',
       ct_total_pending = f 0, ct_total_paid = f 0\<rparr>"
    by (simp add: summary_view_def count_text_Nil)
  moreover from fetchFilteredCustomers_rows [OF assms(1), of f query]
  obtain rows where "fetchFilteredCustomers f st query = ([], Inr rows)"
    "set rows = summary_view f ` set (group_by_customer ?F)"
    by blast
  ultimately show ?thesis using g by (metis image_eqI snd_conv)
qed

theorem fetchFilteredCustomers_no_invoices_witness:
  "fault example_store SelectFilteredCustomers = None \<and>
   jane \<in> set (customers_tbl example_store) \<and>
   list_all (\<lambda>i. inv_customer_id i \<noteq> cust_id jane) (invoices_tbl example_store) \<and>
   customer_where (locale_lower example_store) (''%'' @ ''jane'' @ ''%'') jane \<and>
   snd (fetchFilteredCustomers example_format example_store ''jane'') =
     Inr [\<lparr>ct_id = ''c2'', ct_name = ''Jane Doe'', ct_email = ''jd@example.org'',
            ct_image_url = Some ''/customers/jane.png'', ct_total_invoices = ''0'',
            ct_total_pending = ''0 cents'', ct_total_paid = ''0 cents''\<rparr>] \<and>
   (\<exists>rows. snd (fetchFilteredCustomers example_format example_store ''jane'') = Inr rows \<and>
      \<lparr>ct_id = cust_id jane, ct_name = cust_name jane, ct_email = cust_email jane,
       ct_image_url = cust_image_url jane, ct_total_invoices = ''0'',
       ct_total_pending = example_format 0, ct_total_paid = example_format 0\<rparr> \<in> set rows)"
proof -
  have h: "fault example_store SelectFilteredCustomers = None"
    by (simp add: example_store_def)
  have m: "jane \<in> set (customers_tbl example_store)"
    by (simp add: example_store_def)
  have l: "list_all (\<lambda>i. inv_customer_id i \<noteq> cust_id jane) (invoices_tbl example_store)"
    by code_simp
  then have n: "\<forall>i \<in> set (invoices_tbl example_store). inv_customer_id i \<noteq> cust_id jane"
    by (simp only: list_all_iff)
  have w: "customer_where (locale_lower example_store) (''%'' @ ''jane'' @ ''%'') jane"
    by code_simp
  have v: "snd (fetchFilteredCustomers example_format example_store ''jane'') =
     Inr [\<lparr>ct_id = ''c2'', ct_name = ''Jane Doe'', ct_email = ''jd@example.org'',
            ct_image_url = Some ''/customers/jane.png'', ct_total_invoices = ''0'',
            ct_total_pending = ''0 cents'', ct_total_paid = ''0 cents''\<rparr>]"
    by code_simp
  from h m l w v fetchFilteredCustomers_no_invoices [OF h m n w, of example_format]
  show ?thesis by blast
qed

text \<open>
  Claim C10. When the invoices table is empty, both sums of the status statement are
  \<open>NULL\<close>, and \<open>fetchCardData()\<close> still returns, when its statements run:
  \<open>numberOfInvoices\<close> is 0 and both totals are the formatted zero amount.
\<close>

theorem fetchCardData_empty_invoices:
  assumes "invoices_tbl st = []"
    and "fault st CountInvoices = None" "fault st CountCustomers = None"
    "fault st SumInvoiceStatus = None"
  shows "sql_sum (map (amount_if_status Paid) (invoices_tbl st)) = None \<and>
         sql_sum (map (amount_if_status Pending) (invoices_tbl st)) = None \<and>
         fetchCardData f st =
           ([], Inr \<lparr>numberOfCustomers = Some (int (length (customers_tbl st))),
                     numberOfInvoices = Some 0,
                     totalPaidInvoices = f 0, totalPendingInvoices = f 0\<rparr>)"
  using assms by (simp add: fetchCardData_runs sql_sum_def)

theorem fetchCardData_empty_invoices_witness:
  "invoices_tbl (example_store\<lparr>invoices_tbl := []\<rparr>) = [] \<and>
   fault (example_store\<lparr>invoices_tbl := []\<rparr>) CountInvoices = None \<and>
   fault (example_store\<lparr>invoices_tbl := []\<rparr>) CountCustomers = None \<and>
   fault (example_store\<lparr>invoices_tbl := []\<rparr>) SumInvoiceStatus = None \<and>
   fetchCardData example_format (example_store\<lparr>invoices_tbl := []\<rparr>) =
     ([], Inr \<lparr>numberOfCustomers = Some 2, numberOfInvoices = Some 0,
               totalPaidInvoices = ''0 cents'', totalPendingInvoices = ''0 cents''\<rparr>)"
proof -
  let ?st = "example_store\<lparr>invoices_tbl := []\<rparr>"
  have e: "invoices_tbl ?st = []" by simp
  have h: "fault ?st CountInvoices = None" "fault ?st CountCustomers = None"
    "fault ?st SumInvoiceStatus = None"
    by (simp_all add: example_store_def)
  have c: "length (customers_tbl example_store) = 2"
    by (simp add: example_store_def)
  have z: "example_format 0 = ''0 cents''"
    by code_simp
  show ?thesis
    using e h fetchCardData_empty_invoices [OF e h, of example_format] by (simp add: c z)
qed

end
